theory Spec2Isabelle
  imports Main
begin

section \<open>Text\<close>

text \<open>
  A Python \<^verbatim>\<open>str\<close> is represented by the bytes of its UTF-8 encoding, so
  \<^verbatim>\<open>s.encode("utf-8")\<close> is the identity and a character outside ASCII is the
  sequence of its bytes. The built-in string methods the watcher calls are written out
  on that representation.
\<close>

text \<open>
  \<^verbatim>\<open>match_prefix ps xs\<close> is the length of the first sequence of \<^verbatim>\<open>ps\<close> that \<^verbatim>\<open>xs\<close>
  starts with, and 0 when there is none.
\<close>

fun match_prefix :: "string list \<Rightarrow> string \<Rightarrow> nat" where
  "match_prefix [] xs = 0"
| "match_prefix (p # ps) xs =
     (if p \<noteq> [] \<and> take (length p) xs = p then length p else match_prefix ps xs)"

text \<open>
  The line boundaries of \<^verbatim>\<open>str.splitlines\<close>: CR LF (tried first), LF, CR, VT, FF, FS,
  GS, RS, NEL (U+0085), LS (U+2028) and PS (U+2029).
\<close>

definition line_breaks :: "string list" where
  "line_breaks =
     [[CHR 0x0D, CHR 0x0A], [CHR 0x0A], [CHR 0x0D], [CHR 0x0B], [CHR 0x0C],
      [CHR 0x1C], [CHR 0x1D], [CHR 0x1E], [CHR 0xC2, CHR 0x85],
      [CHR 0xE2, CHR 0x80, CHR 0xA8], [CHR 0xE2, CHR 0x80, CHR 0xA9]]"

text \<open>
  The characters \<^verbatim>\<open>str.strip\<close> removes (those for which \<^verbatim>\<open>str.isspace\<close> holds):
  U+0009..U+000D, U+001C..U+0020, U+0085, U+00A0, U+1680, U+2000..U+200A, U+2028,
  U+2029, U+202F, U+205F and U+3000.
\<close>

definition whitespace :: "string list" where
  "whitespace =
     [[CHR 0x09], [CHR 0x0A], [CHR 0x0B], [CHR 0x0C], [CHR 0x0D],
      [CHR 0x1C], [CHR 0x1D], [CHR 0x1E], [CHR 0x1F], [CHR 0x20],
      [CHR 0xC2, CHR 0x85], [CHR 0xC2, CHR 0xA0], [CHR 0xE1, CHR 0x9A, CHR 0x80],
      [CHR 0xE2, CHR 0x80, CHR 0x80], [CHR 0xE2, CHR 0x80, CHR 0x81],
      [CHR 0xE2, CHR 0x80, CHR 0x82], [CHR 0xE2, CHR 0x80, CHR 0x83],
      [CHR 0xE2, CHR 0x80, CHR 0x84], [CHR 0xE2, CHR 0x80, CHR 0x85],
      [CHR 0xE2, CHR 0x80, CHR 0x86], [CHR 0xE2, CHR 0x80, CHR 0x87],
      [CHR 0xE2, CHR 0x80, CHR 0x88], [CHR 0xE2, CHR 0x80, CHR 0x89],
      [CHR 0xE2, CHR 0x80, CHR 0x8A], [CHR 0xE2, CHR 0x80, CHR 0xA8],
      [CHR 0xE2, CHR 0x80, CHR 0xA9], [CHR 0xE2, CHR 0x80, CHR 0xAF],
      [CHR 0xE2, CHR 0x81, CHR 0x9F], [CHR 0xE3, CHR 0x80, CHR 0x80]]"

lemma match_prefix_le: "match_prefix ps xs \<le> length xs"
proof (induction ps)
  case Nil
  show ?case by simp
next
  case (Cons p ps)
  have "length p \<le> length xs" if eq: "take (length p) xs = p"
  proof -
    have "length (take (length p) xs) = length p" by (simp only: eq)
    then show ?thesis by simp
  qed
  with Cons show ?case by simp
qed

lemma match_prefix_drop:
  assumes "0 < match_prefix ps xs"
  shows "length xs - match_prefix ps xs < length xs"
proof -
  have "match_prefix ps xs \<le> length xs" by (rule match_prefix_le)
  with assms show ?thesis by linarith
qed

text \<open>\<^verbatim>\<open>str.splitlines()\<close>: \<^verbatim>\<open>cur\<close> is the line being read.\<close>

function splitlines_from :: "string \<Rightarrow> string \<Rightarrow> string list" where
  "splitlines_from cur xs =
     (if xs = [] then (if cur = [] then [] else [cur])
      else if match_prefix line_breaks xs = 0 then splitlines_from (cur @ [hd xs]) (tl xs)
      else cur # splitlines_from [] (drop (match_prefix line_breaks xs) xs))"
  by pat_completeness auto
termination
  by (relation "measure (\<lambda>(cur, xs). length xs)") (auto simp: match_prefix_drop)

declare splitlines_from.simps [simp del]

definition splitlines :: "string \<Rightarrow> string list" where
  "splitlines s = splitlines_from [] s"

text \<open>\<^verbatim>\<open>str.lstrip()\<close>, and \<^verbatim>\<open>str.strip()\<close> as stripping both ends.\<close>

function drop_leading :: "string list \<Rightarrow> string \<Rightarrow> string" where
  "drop_leading ps xs =
     (if match_prefix ps xs = 0 then xs else drop_leading ps (drop (match_prefix ps xs) xs))"
  by pat_completeness auto
termination
  by (relation "measure (\<lambda>(ps, xs). length xs)") (auto simp: match_prefix_drop)

declare drop_leading.simps [simp del]

definition strip :: "string \<Rightarrow> string" where
  "strip s = rev (drop_leading (map rev whitespace) (rev (drop_leading whitespace s)))"

text \<open>\<^verbatim>\<open>sep.join(parts)\<close>.\<close>

fun join :: "string \<Rightarrow> string list \<Rightarrow> string" where
  "join sep [] = []"
| "join sep [p] = p"
| "join sep (p # q # ps) = p @ sep @ join sep (q # ps)"

text \<open>\<^verbatim>\<open>s.split(",")\<close>: the pieces between the commas, empty ones included.\<close>

fun split_from :: "char \<Rightarrow> string \<Rightarrow> string \<Rightarrow> string list" where
  "split_from sep cur [] = [cur]"
| "split_from sep cur (c # cs) =
     (if c = sep then cur # split_from sep [] cs else split_from sep (cur @ [c]) cs)"

definition split_comma :: "string \<Rightarrow> string list" where
  "split_comma s = split_from (CHR '','') [] s"

text \<open>Truthiness of a value that is \<^verbatim>\<open>None\<close> or a string, as \<^verbatim>\<open>if x\<close> tests it.\<close>

fun truthy :: "string option \<Rightarrow> bool" where
  "truthy None = False"
| "truthy (Some s) = (s \<noteq> [])"

text \<open>\<^verbatim>\<open>x or default\<close> on such a value.\<close>

fun or_else :: "string option \<Rightarrow> string \<Rightarrow> string" where
  "or_else None d = d"
| "or_else (Some s) d = (if s = [] then d else s)"

text \<open>The string of a configuration value that was tested to be set.\<close>

fun value_of :: "string option \<Rightarrow> string" where
  "value_of None = []"
| "value_of (Some s) = s"

section \<open>Libraries and environment\<close>

text \<open>
  The watcher calls three libraries that are not part of it. They are parameters of the
  model: \<^verbatim>\<open>hashlib.sha256(b).hexdigest()\<close>, the tree \<^verbatim>\<open>BeautifulSoup(html, "html.parser")\<close>
  builds (the children of the document) and \<^verbatim>\<open>str(tag)\<close>, the markup of an element.
\<close>

datatype node = Tag string "(string \<times> string) list" "node list" | NavigableString string

record lib =
  sha256_hexdigest :: "string \<Rightarrow> string"
  html_parser :: "string \<Rightarrow> node list"
  tag_str :: "node \<Rightarrow> string"

text \<open>
  The exceptions the handlers tell apart: \<^verbatim>\<open>requests.exceptions.RequestException\<close> and the
  other subclasses of \<^verbatim>\<open>Exception\<close>.
\<close>

datatype exn = RequestException | OSError | ValueError | OverflowError | OtherException

text \<open>
  The module-level configuration, read from the process environment: a variable that is
  not set is \<^verbatim>\<open>None\<close>.
\<close>

record config =
  check_interval :: int
  from_name :: string
  brevo_api_key :: "string option"
  from_email :: "string option"
  mail_to :: "string option"
  telegram_bot_token :: "string option"
  telegram_chat_id :: "string option"

text \<open>
  The two POST requests: the bot's \<^verbatim>\<open>sendMessage\<close> (token, chat id, text) and the mail API
  (API key, sender name, sender address, recipients, subject, text content).
\<close>

datatype request =
  TelegramSendMessage string string string
| BrevoSendEmail string string string "string list" string string

text \<open>
  What the file at \<^verbatim>\<open>HASH_FILE\<close> is: not there, there but \<^verbatim>\<open>open\<close> or \<^verbatim>\<open>read\<close> raises
  (no permission, a directory, bytes that do not decode), or a text. Reading in text
  mode maps CR LF and CR to LF, which \<^verbatim>\<open>splitlines\<close> treats alike, so the text is kept
  as it was written.
\<close>

datatype file_state = Absent | Unreadable | Content string

text \<open>
  Where writing the state file fails with \<^verbatim>\<open>OSError\<close>: in \<^verbatim>\<open>os.makedirs\<close>, in \<^verbatim>\<open>open\<close>,
  or after the file was truncated and so many characters of the new text reached it.
\<close>

datatype fs_fault = NoFault | MakedirsFails | OpenFails | WriteFails nat

text \<open>
  What the world answers during one cycle: the outcome of \<^verbatim>\<open>requests.get\<close> (an exception,
  or a status code and a body), of each \<^verbatim>\<open>requests.post\<close> (an exception or a status
  code), of the write of the state file, and of a sleep of a number of seconds that is
  not negative. That last answer depends on the platform and on its clock:
  \<^verbatim>\<open>OverflowError\<close> when the number is too large to convert, \<^verbatim>\<open>OSError\<close> when the system
  rejects the deadline.
\<close>

record env =
  http_get :: "exn + nat \<times> string"
  http_post :: "request \<Rightarrow> exn + nat"
  fs_fault :: fs_fault
  os_sleep :: "int \<Rightarrow> exn + unit"

text \<open>
  What a run does, in order: the log records, the requests issued, the calls of
  \<^verbatim>\<open>notify\<close> with subject and body, and the sleeps.
\<close>

datatype level = DEBUG | INFO | WARNING | ERROR

text \<open>
  The log records, named for what their text says: a channel skipped, sent or failed;
  no notification could be sent; the heading was not found; no state file, digests
  loaded, the state file could not be read, digests saved; the lines at start-up; and in
  a cycle: checking the page, baseline set, structure change, section change, no change,
  the fetch failed, an unexpected error, waiting for the next check.
\<close>

datatype message =
  TelegramSkipped | TelegramSent | TelegramFailed
| MailSkipped | MailSent string | MailFailed
| NothingSent
| HeaderNotFound
| NoHashFile | HashesLoaded | HashFileReadError
| HashesSaved
| Started | Channels "string list" | NoChannels
| Checking | BaselineSet | StructureChangeDetected | SectionChangeDetected | NoChange
| FetchFailed | UnexpectedError exn
| Waiting int

datatype event =
  Log level message
| Get
| Post request
| NotifyCall string string
| Sleep int

text \<open>\<^verbatim>\<open>response.raise_for_status()\<close> raises for the status codes 400 to 599.\<close>

definition raise_for_status :: "nat \<Rightarrow> bool" where
  "raise_for_status status = (400 \<le> status \<and> status < 600)"

section \<open>Notifier\<close>

definition send_telegram ::
  "config \<Rightarrow> (request \<Rightarrow> exn + nat) \<Rightarrow> string \<Rightarrow> (exn + bool) \<times> event list" where
  "send_telegram cfg post message =
     (if \<not> (truthy (telegram_bot_token cfg) \<and> truthy (telegram_chat_id cfg))
      then (Inr False, [Log DEBUG TelegramSkipped])
      else
        (let req = TelegramSendMessage (value_of (telegram_bot_token cfg))
                     (value_of (telegram_chat_id cfg)) message
         in case post req of
              Inr status \<Rightarrow>
                if raise_for_status status then (Inr False, [Post req, Log ERROR TelegramFailed])
                else (Inr True, [Post req, Log INFO TelegramSent])
            | Inl e \<Rightarrow>
                if e = RequestException then (Inr False, [Post req, Log ERROR TelegramFailed])
                else (Inl e, [Post req])))"

definition send_mail ::
  "config \<Rightarrow> (request \<Rightarrow> exn + nat) \<Rightarrow> string \<Rightarrow> string \<Rightarrow> (exn + bool) \<times> event list" where
  "send_mail cfg post subject body =
     (if \<not> (truthy (brevo_api_key cfg) \<and> truthy (from_email cfg) \<and> truthy (mail_to cfg))
      then (Inr False, [Log DEBUG MailSkipped])
      else
        (let recipients = map strip (split_comma (value_of (mail_to cfg)));
             req = BrevoSendEmail (value_of (brevo_api_key cfg)) (from_name cfg)
                     (value_of (from_email cfg)) recipients subject body
         in case post req of
              Inr status \<Rightarrow>
                if raise_for_status status then (Inr False, [Post req, Log ERROR MailFailed])
                else (Inr True, [Post req, Log INFO (MailSent subject)])
            | Inl e \<Rightarrow>
                if e = RequestException then (Inr False, [Post req, Log ERROR MailFailed])
                else (Inl e, [Post req])))"

definition telegram_text :: "string \<Rightarrow> string \<Rightarrow> string" where
  "telegram_text subject body = ''<b>'' @ subject @ ''</b>'' @ [CHR 0x0A, CHR 0x0A] @ body"

definition notify ::
  "config \<Rightarrow> (request \<Rightarrow> exn + nat) \<Rightarrow> string \<Rightarrow> string \<Rightarrow> (exn + unit) \<times> event list" where
  "notify cfg post subject body =
     (case send_telegram cfg post (telegram_text subject body) of
        (Inl e, ev1) \<Rightarrow> (Inl e, NotifyCall subject body # ev1)
      | (Inr telegram_sent, ev1) \<Rightarrow>
          (case send_mail cfg post subject body of
             (Inl e, ev2) \<Rightarrow> (Inl e, NotifyCall subject body # ev1 @ ev2)
           | (Inr mail_sent, ev2) \<Rightarrow>
               (Inr (), NotifyCall subject body # ev1 @ ev2 @
                  (if \<not> telegram_sent \<and> \<not> mail_sent then [Log WARNING NothingSent] else []))))"

section \<open>Fetcher\<close>

definition fetch_page :: "env \<Rightarrow> (exn + string) \<times> event list" where
  "fetch_page e =
     (case http_get e of
        Inl x \<Rightarrow> (Inl x, [Get])
      | Inr (status, body) \<Rightarrow>
          if raise_for_status status then (Inl RequestException, [Get]) else (Inr body, [Get]))"

section \<open>Extractor\<close>

definition target_heading :: string where
  "target_heading = ''Kurzfristig zu besetzende Ausbildungspl'' @ [CHR 0xC3, CHR 0xA4] @ ''tze:''"

text \<open>
  \<^verbatim>\<open>Tag.string\<close>: the only child when it is a string, the \<^verbatim>\<open>string\<close> of the only child
  when it is an element, and \<^verbatim>\<open>None\<close> for any other number of children.
\<close>

fun tag_string :: "node \<Rightarrow> string option" where
  "tag_string (NavigableString s) = Some s"
| "tag_string (Tag n as [c]) = tag_string c"
| "tag_string (Tag n as cs) = None"

text \<open>
  \<^verbatim>\<open>soup.find("h5", string=...)\<close> walks the document in document order and stops at the
  first \<^verbatim>\<open>h5\<close> whose \<^verbatim>\<open>string\<close> is the target. The function returns what the caller reads
  from that element: the siblings that follow it under the same parent.
\<close>

fun find_header :: "node list \<Rightarrow> node list option" where
  "find_header [] = None"
| "find_header (NavigableString s # rest) = find_header rest"
| "find_header (Tag n as cs # rest) =
     (if n = ''h5'' \<and> tag_string (Tag n as cs) = Some target_heading then Some rest
      else (case find_header cs of Some following \<Rightarrow> Some following | None \<Rightarrow> find_header rest))"

text \<open>\<^verbatim>\<open>find_next_siblings()\<close> with no argument keeps the elements and skips the strings.\<close>

fun is_tag :: "node \<Rightarrow> bool" where
  "is_tag (Tag n as cs) = True"
| "is_tag (NavigableString s) = False"

fun tag_name :: "node \<Rightarrow> string" where
  "tag_name (Tag n as cs) = n"
| "tag_name (NavigableString s) = []"

definition find_next_siblings :: "node list \<Rightarrow> node list" where
  "find_next_siblings following = filter is_tag following"

text \<open>The test of the loop: \<^verbatim>\<open>sibling.name and sibling.name.startswith("h")\<close>.\<close>

definition starts_with_h :: "string \<Rightarrow> bool" where
  "starts_with_h n = (n \<noteq> [] \<and> hd n = CHR ''h'')"

definition extract_training_section :: "lib \<Rightarrow> string \<Rightarrow> string option \<times> event list" where
  "extract_training_section L html =
     (case find_header (html_parser L html) of
        None \<Rightarrow> (None, [Log DEBUG HeaderNotFound])
      | Some following \<Rightarrow>
          (let content_parts =
                 map (tag_str L)
                   (takeWhile (\<lambda>sibling. \<not> starts_with_h (tag_name sibling))
                      (find_next_siblings following));
               combined = strip (join [CHR 0x0A] content_parts)
           in (if combined \<noteq> [] then Some combined else None, [])))"

section \<open>Hasher\<close>

definition get_hash :: "lib \<Rightarrow> string option \<Rightarrow> string" where
  "get_hash L content = sha256_hexdigest L (or_else content [])"

section \<open>State store\<close>

text \<open>\<^verbatim>\<open>os.path.exists\<close> answers without raising; \<^verbatim>\<open>open\<close> and \<^verbatim>\<open>read\<close> may raise.\<close>

fun path_exists :: "file_state \<Rightarrow> bool" where
  "path_exists Absent = False"
| "path_exists Unreadable = True"
| "path_exists (Content s) = True"

fun read_text :: "file_state \<Rightarrow> exn + string" where
  "read_text Absent = Inl OSError"
| "read_text Unreadable = Inl OSError"
| "read_text (Content s) = Inr s"

definition load_hashes :: "file_state \<Rightarrow> (string option \<times> string option) \<times> event list" where
  "load_hashes f =
     (if \<not> path_exists f then ((None, None), [Log INFO NoHashFile])
      else
        (case read_text f of
           Inr text \<Rightarrow>
             (let lines = splitlines text
              in if length lines = 2
                 then ((Some (lines ! 0), Some (lines ! 1)), [Log DEBUG HashesLoaded])
                 else ((None, None), []))
         | Inl e \<Rightarrow> ((None, None), [Log ERROR HashFileReadError])))"

definition file_text :: "string \<Rightarrow> string \<Rightarrow> string" where
  "file_text full_hash section_hash = full_hash @ [CHR 0x0A] @ section_hash @ [CHR 0x0A]"

fun save_hashes ::
  "fs_fault \<Rightarrow> string \<Rightarrow> string \<Rightarrow> file_state \<Rightarrow> (exn + unit) \<times> file_state \<times> event list" where
  "save_hashes NoFault full_hash section_hash f =
     (Inr (), Content (file_text full_hash section_hash), [Log DEBUG HashesSaved])"
| "save_hashes MakedirsFails full_hash section_hash f = (Inl OSError, f, [])"
| "save_hashes OpenFails full_hash section_hash f = (Inl OSError, f, [])"
| "save_hashes (WriteFails k) full_hash section_hash f =
     (Inl OSError, Content (take k (file_text full_hash section_hash)), [])"

text \<open>
  A process that stops while \<^verbatim>\<open>save_hashes\<close> writes leaves the file truncated by \<^verbatim>\<open>open\<close>
  and holding the first \<^verbatim>\<open>k\<close> characters of the new text.
\<close>

definition file_after_crash :: "nat \<Rightarrow> string \<Rightarrow> string \<Rightarrow> file_state" where
  "file_after_crash k full_hash section_hash = Content (take k (file_text full_hash section_hash))"

section \<open>Loop controller\<close>

text \<open>
  What \<^verbatim>\<open>main\<close> carries from one cycle to the next: the two variables \<^verbatim>\<open>last_full_hash\<close>
  and \<^verbatim>\<open>last_section_hash\<close>, and the state file.
\<close>

record world =
  last_full_hash :: "string option"
  last_section_hash :: "string option"
  hash_file :: file_state

definition en_dash :: string where
  "en_dash = [CHR 0xE2, CHR 0x80, CHR 0x93]"

definition structure_subject :: string where
  "structure_subject =
     ''OLG Hamm '' @ en_dash @ '' Struktur'' @ [CHR 0xC3, CHR 0xA4] @ ''nderung erkannt''"

definition structure_body :: string where
  "structure_body =
     ''Die Gesamtstruktur der Seite hat sich ver'' @ [CHR 0xC3, CHR 0xA4] @ ''ndert (m'' @
     [CHR 0xC3, CHR 0xB6] @
     ''glicherweise Layout oder Position des Ausbildungsbereichs).''"

definition update_subject :: string where
  "update_subject = ''OLG Hamm '' @ en_dash @ '' Ausbildungsplatz-Update!''"

definition update_intro :: string where
  "update_intro =
     ''Der Inhalt im Ausbildungsabschnitt hat sich ge'' @ [CHR 0xC3, CHR 0xA4] @ ''ndert.'' @
     [CHR 0x0A, CHR 0x0A] @ ''Aktueller Inhalt:'' @ [CHR 0x0A, CHR 0x0A]"

definition update_body :: "string option \<Rightarrow> string" where
  "update_body section = update_intro @ or_else section ''[leer]''"

text \<open>
  The comparison of the new hashes with the last ones (the \<^verbatim>\<open>if last_full_hash is None\<close>
  statement of \<^verbatim>\<open>main\<close>). An exception that leaves \<^verbatim>\<open>notify\<close> leaves the statement.
\<close>

definition compare_hashes ::
  "config \<Rightarrow> env \<Rightarrow> world \<Rightarrow> string \<Rightarrow> string option \<Rightarrow> string \<Rightarrow> (exn + unit) \<times> event list" where
  "compare_hashes cfg e w full_hash section section_hash =
     (if last_full_hash w = None then (Inr (), [Log INFO BaselineSet])
      else
        (case (if Some full_hash \<noteq> last_full_hash w
               then (case notify cfg (http_post e) structure_subject structure_body of
                       (r, ev) \<Rightarrow> (r, Log WARNING StructureChangeDetected # ev))
               else (Inr (), []))
         of
           (Inl x, ev1) \<Rightarrow> (Inl x, ev1)
         | (Inr u, ev1) \<Rightarrow>
             if Some section_hash \<noteq> last_section_hash w
             then (case notify cfg (http_post e) update_subject (update_body section) of
                     (r, ev2) \<Rightarrow> (r, ev1 @ Log INFO SectionChangeDetected # ev2))
             else (Inr (), ev1 @ [Log INFO NoChange])))"

text \<open>
  The body of the \<^verbatim>\<open>try\<close> statement of one cycle: fetch, hash, extract, compare and notify,
  persist, and only then the assignment of the two variables.
\<close>

definition check_page :: "lib \<Rightarrow> config \<Rightarrow> env \<Rightarrow> world \<Rightarrow> (exn + unit) \<times> world \<times> event list" where
  "check_page L cfg e w =
     (case fetch_page e of
        (Inl x, ev0) \<Rightarrow> (Inl x, w, Log INFO Checking # ev0)
      | (Inr html, ev0) \<Rightarrow>
          (let full_hash = get_hash L (Some html);
               section = fst (extract_training_section L html);
               ev1 = snd (extract_training_section L html);
               section_hash = get_hash L section
           in case compare_hashes cfg e w full_hash section section_hash of
                (Inl x, ev2) \<Rightarrow> (Inl x, w, Log INFO Checking # ev0 @ ev1 @ ev2)
              | (Inr u, ev2) \<Rightarrow>
                  (case save_hashes (fs_fault e) full_hash section_hash (hash_file w) of
                     (Inl x, f, ev3) \<Rightarrow>
                       (Inl x, w\<lparr>hash_file := f\<rparr>, Log INFO Checking # ev0 @ ev1 @ ev2 @ ev3)
                   | (Inr v, f, ev3) \<Rightarrow>
                       (Inr (),
                        \<lparr>last_full_hash = Some full_hash, last_section_hash = Some section_hash,
                         hash_file = f\<rparr>,
                        Log INFO Checking # ev0 @ ev1 @ ev2 @ ev3))))"

text \<open>The \<^verbatim>\<open>try\<close> statement with its two handlers.\<close>

definition handle :: "exn + unit \<Rightarrow> event list" where
  "handle r =
     (case r of
        Inr u \<Rightarrow> []
      | Inl x \<Rightarrow>
          if x = RequestException then [Log ERROR FetchFailed]
          else [Log ERROR (UnexpectedError x)])"

definition guarded_check :: "lib \<Rightarrow> config \<Rightarrow> env \<Rightarrow> world \<Rightarrow> world \<times> event list" where
  "guarded_check L cfg e w =
     (case check_page L cfg e w of (r, w', ev) \<Rightarrow> (w', ev @ handle r))"

text \<open>
  \<^verbatim>\<open>time.sleep(secs)\<close> raises \<^verbatim>\<open>ValueError\<close> for a negative number, before it asks the
  system; for any other number the answer is the one of the world. The call stands after
  the \<^verbatim>\<open>try\<close> statement.
\<close>

definition sleep :: "env \<Rightarrow> int \<Rightarrow> (exn + unit) \<times> event list" where
  "sleep e secs =
     (if secs < 0 then (Inl ValueError, [])
      else (case os_sleep e secs of
              Inl x \<Rightarrow> (Inl x, [])
            | Inr u \<Rightarrow> (Inr (), [Sleep secs])))"

text \<open>
  What follows the \<^verbatim>\<open>try\<close> statement in a cycle: the log record, the sleep, and then
  the rest of the loop, whose result is \<^verbatim>\<open>rest\<close>. An exception of \<^verbatim>\<open>time.sleep\<close> is not
  handled and ends the loop.
\<close>

definition wait_then ::
  "config \<Rightarrow> env \<Rightarrow> world \<Rightarrow> exn option \<times> world \<times> event list \<Rightarrow>
     exn option \<times> world \<times> event list" where
  "wait_then cfg e w rest =
     (case sleep e (check_interval cfg) of
        (Inl x, ev) \<Rightarrow> (Some x, w, Log INFO (Waiting (check_interval cfg)) # ev)
      | (Inr u, ev) \<Rightarrow>
          (case rest of (r, w', ev') \<Rightarrow> (r, w', Log INFO (Waiting (check_interval cfg)) # ev @ ev')))"

text \<open>
  The \<^verbatim>\<open>while True\<close> loop, run on the answers of the world for the first cycles. It has no
  exit but an exception: the result is that exception, or \<^verbatim>\<open>None\<close> when every cycle of
  the list was run and the loop goes on.
\<close>

fun main_loop :: "lib \<Rightarrow> config \<Rightarrow> env list \<Rightarrow> world \<Rightarrow> exn option \<times> world \<times> event list" where
  "main_loop L cfg [] w = (None, w, [])"
| "main_loop L cfg (e # es) w =
     (case guarded_check L cfg e w of
        (w1, ev1) \<Rightarrow>
          (case wait_then cfg e w1 (main_loop L cfg es w1) of
             (r, w2, ev2) \<Rightarrow> (r, w2, ev1 @ ev2)))"

definition configured_channels :: "config \<Rightarrow> string list" where
  "configured_channels cfg =
     (if truthy (telegram_bot_token cfg) \<and> truthy (telegram_chat_id cfg) then [''Telegram''] else []) @
     (if truthy (brevo_api_key cfg) \<and> truthy (from_email cfg) \<and> truthy (mail_to cfg)
      then [''E-Mail''] else [])"

text \<open>The state the loop starts from: what \<^verbatim>\<open>load_hashes\<close> returned, and the file.\<close>

definition initial_world :: "file_state \<Rightarrow> world" where
  "initial_world f =
     \<lparr>last_full_hash = fst (fst (load_hashes f)), last_section_hash = snd (fst (load_hashes f)),
      hash_file = f\<rparr>"

definition main :: "lib \<Rightarrow> config \<Rightarrow> file_state \<Rightarrow> env list \<Rightarrow> exn option \<times> world \<times> event list" where
  "main L cfg f es =
     (case main_loop L cfg es (initial_world f) of
        (r, w, ev) \<Rightarrow>
          (r, w,
           Log INFO Started #
           (if configured_channels cfg \<noteq> [] then Log INFO (Channels (configured_channels cfg))
            else Log WARNING NoChannels) #
           snd (load_hashes f) @ ev))"

text \<open>What is read off a run: the calls of \<^verbatim>\<open>notify\<close> and the requests posted.\<close>

fun notify_calls :: "event list \<Rightarrow> (string \<times> string) list" where
  "notify_calls [] = []"
| "notify_calls (NotifyCall subject body # evs) = (subject, body) # notify_calls evs"
| "notify_calls (ev # evs) = notify_calls evs"

fun posts :: "event list \<Rightarrow> request list" where
  "posts [] = []"
| "posts (Post req # evs) = req # posts evs"
| "posts (ev # evs) = posts evs"


fun sleeps :: "event list \<Rightarrow> nat" where
  "sleeps [] = 0"
| "sleeps (Sleep secs # evs) = Suc (sleeps evs)"
| "sleeps (ev # evs) = sleeps evs"

section \<open>Properties stated about the watcher\<close>

text \<open>
  The shape of a \<^verbatim>\<open>hexdigest()\<close> of SHA-256: 64 characters, each a lower-case hexadecimal
  digit.
\<close>

definition hex_digits :: string where
  "hex_digits = ''0123456789abcdef''"

definition is_hexdigest :: "string \<Rightarrow> bool" where
  "is_hexdigest s = (length s = 64 \<and> set s \<subseteq> set hex_digits)"

text \<open>
  The contract of \<^verbatim>\<open>requests\<close>: a request that does not return a response raises a
  \<^verbatim>\<open>RequestException\<close>, the exception the two senders catch.
\<close>

definition caught_only :: "(request \<Rightarrow> exn + nat) \<Rightarrow> bool" where
  "caught_only post = (\<forall>req. case post req of Inl x \<Rightarrow> x = RequestException | Inr status \<Rightarrow> True)"

text \<open>Whether each of the two channels has all of its variables set.\<close>

definition telegram_configured :: "config \<Rightarrow> bool" where
  "telegram_configured cfg = (truthy (telegram_bot_token cfg) \<and> truthy (telegram_chat_id cfg))"

definition mail_configured :: "config \<Rightarrow> bool" where
  "mail_configured cfg =
     (truthy (brevo_api_key cfg) \<and> truthy (from_email cfg) \<and> truthy (mail_to cfg))"

text \<open>The requests the two senders build.\<close>

definition telegram_request :: "config \<Rightarrow> string \<Rightarrow> string \<Rightarrow> request" where
  "telegram_request cfg subject body =
     TelegramSendMessage (value_of (telegram_bot_token cfg)) (value_of (telegram_chat_id cfg))
       (telegram_text subject body)"

definition mail_request :: "config \<Rightarrow> string \<Rightarrow> string \<Rightarrow> request" where
  "mail_request cfg subject body =
     BrevoSendEmail (value_of (brevo_api_key cfg)) (from_name cfg) (value_of (from_email cfg))
       (map strip (split_comma (value_of (mail_to cfg)))) subject body"

text \<open>The requests of one notification: one for each configured channel, chat first.\<close>

definition channel_requests :: "config \<Rightarrow> string \<Rightarrow> string \<Rightarrow> request list" where
  "channel_requests cfg subject body =
     (if telegram_configured cfg then [telegram_request cfg subject body] else []) @
     (if mail_configured cfg then [mail_request cfg subject body] else [])"

text \<open>
  The extractor as the specification words it: the siblings are collected up to the next
  heading element, \<^verbatim>\<open>h1\<close> to \<^verbatim>\<open>h6\<close>.
\<close>

definition is_heading :: "string \<Rightarrow> bool" where
  "is_heading n = (n \<in> set [''h1'', ''h2'', ''h3'', ''h4'', ''h5'', ''h6''])"

definition section_until_heading :: "lib \<Rightarrow> string \<Rightarrow> string option" where
  "section_until_heading L html =
     (case find_header (html_parser L html) of
        None \<Rightarrow> None
      | Some following \<Rightarrow>
          (let combined =
                 strip (join [CHR 0x0A]
                   (map (tag_str L)
                      (takeWhile (\<lambda>sibling. \<not> is_heading (tag_name sibling))
                         (find_next_siblings following))))
           in if combined \<noteq> [] then Some combined else None))"

subsection \<open>Concrete libraries and inputs\<close>

text \<open>
  The markup \<^verbatim>\<open>str(tag)\<close> gives for an element without attributes whose text needs no
  escaping; an element that can have no content is written \<^verbatim>\<open><name/>\<close>.
\<close>

definition void_elements :: "string list" where
  "void_elements =
     [''area'', ''base'', ''br'', ''col'', ''embed'', ''hr'', ''img'', ''input'', ''link'',
      ''meta'', ''param'', ''source'', ''track'', ''wbr'']"

fun markup :: "node \<Rightarrow> string" where
  "markup (NavigableString s) = s"
| "markup (Tag n as cs) =
     (if cs = [] \<and> n \<in> set void_elements then ''<'' @ n @ ''/>''
      else ''<'' @ n @ ''>'' @ concat (map markup cs) @ ''</'' @ n @ ''>'')"

text \<open>
  A digest function of the right shape to run the model with: the hexadecimal digit of
  the length of the text modulo 16, 64 times. Theorems are stated for every digest
  function; this one only instantiates them.
\<close>

definition length_digest :: "string \<Rightarrow> string" where
  "length_digest s = replicate 64 (hex_digits ! (length s mod 16))"

text \<open>The page of the example of the specification, with a rule between two paragraphs.\<close>

definition page_with_rule :: "node list" where
  "page_with_rule =
     [Tag ''h5'' [] [NavigableString target_heading],
      Tag ''p'' [] [NavigableString ''A''],
      Tag ''hr'' [] [],
      Tag ''p'' [] [NavigableString ''B''],
      Tag ''h6'' [] [NavigableString ''C'']]"

definition page_with_rule_html :: string where
  "page_with_rule_html = ''<h5>'' @ target_heading @ ''</h5><p>A</p><hr/><p>B</p><h6>C</h6>''"

definition example_lib :: "node list \<Rightarrow> lib" where
  "example_lib doc =
     \<lparr>sha256_hexdigest = length_digest, html_parser = (\<lambda>html. doc), tag_str = markup\<rparr>"

definition example_config :: "int \<Rightarrow> config" where
  "example_config secs =
     \<lparr>check_interval = secs, from_name = ''OLG Watcher'', brevo_api_key = None,
      from_email = None, mail_to = None, telegram_bot_token = Some ''token'',
      telegram_chat_id = Some ''42''\<rparr>"

text \<open>Two digests to run the model with: SHA-256 of \<^verbatim>\<open><html></html>\<close> and of the empty text.\<close>

definition digest_of_page :: string where
  "digest_of_page = ''b633a587c652d02386c4f16f8c6f6aab7352d97f16367c3c40576214372dd628''"

definition digest_of_empty :: string where
  "digest_of_empty = ''e3b0c44298fc1c149afbf4c8996fb92427ae41e4649b934ca495991b7852b855''"

text \<open>A request is delivered when it is answered with a status that does not raise.\<close>

definition delivered :: "(request \<Rightarrow> exn + nat) \<Rightarrow> request \<Rightarrow> bool" where
  "delivered post req = (case post req of Inr status \<Rightarrow> \<not> raise_for_status status | Inl x \<Rightarrow> False)"

text \<open>The two variables of the loop are both set or both \<^verbatim>\<open>None\<close>.\<close>

definition paired :: "world \<Rightarrow> bool" where
  "paired w = ((last_full_hash w = None) = (last_section_hash w = None))"

text \<open>A configuration with both channels set, and a world in which both requests fail.\<close>

definition two_channel_config :: config where
  "two_channel_config =
     \<lparr>check_interval = 900, from_name = ''OLG Watcher'', brevo_api_key = Some ''key'',
      from_email = Some ''watcher@example.org'',
      mail_to = Some ''a@example.org, b@example.org'',
      telegram_bot_token = Some ''token'', telegram_chat_id = Some ''42''\<rparr>"

fun failing_post :: "request \<Rightarrow> exn + nat" where
  "failing_post (TelegramSendMessage token chat message) = Inl RequestException"
| "failing_post (BrevoSendEmail key name sender recipients subject body) = Inr 500"

text \<open>A cycle in which the server answers 503 and both notification requests fail.\<close>

definition unavailable :: env where
  "unavailable =
     \<lparr>http_get = Inr (503, []), http_post = failing_post, fs_fault = NoFault,
      os_sleep = (\<lambda>secs. Inr ())\<rparr>"


definition steady_world :: world where
  "steady_world =
     \<lparr>last_full_hash = Some digest_of_page, last_section_hash = Some digest_of_empty,
      hash_file = Content (file_text digest_of_page digest_of_empty)\<rparr>"

text \<open>
  A cycle in which the given page is served and both notification requests are answered
  with 200; one in which the request of the mail channel raises an exception that is not
  a \<^verbatim>\<open>RequestException\<close> (as \<^verbatim>\<open>UnicodeEncodeError\<close>, a \<^verbatim>\<open>ValueError\<close>, for a header value
  outside Latin-1); and two worlds before such a cycle: one that holds the digest of that
  page and the digest of an absent section, and one that holds two other digests.
\<close>

definition served :: "string \<Rightarrow> env" where
  "served html =
     \<lparr>http_get = Inr (200, html), http_post = (\<lambda>req. Inr 200), fs_fault = NoFault,
      os_sleep = (\<lambda>secs. Inr ())\<rparr>"

fun mail_raises :: "request \<Rightarrow> exn + nat" where
  "mail_raises (TelegramSendMessage token chat message) = Inr 200"
| "mail_raises (BrevoSendEmail key name sender recipients subject body) = Inl ValueError"

definition served_mail_raises :: "string \<Rightarrow> env" where
  "served_mail_raises html =
     \<lparr>http_get = Inr (200, html), http_post = mail_raises, fs_fault = NoFault,
      os_sleep = (\<lambda>secs. Inr ())\<rparr>"

definition before_section :: world where
  "before_section =
     \<lparr>last_full_hash = Some (length_digest page_with_rule_html),
      last_section_hash = Some (length_digest []),
      hash_file = Content (file_text (length_digest page_with_rule_html) (length_digest []))\<rparr>"

text \<open>The first characters of the line boundaries; no hexadecimal digit is among them.\<close>

definition break_heads :: string where
  "break_heads =
     [CHR 0x0A, CHR 0x0B, CHR 0x0C, CHR 0x0D, CHR 0x1C, CHR 0x1D, CHR 0x1E, CHR 0xC2, CHR 0xE2]"

section \<open>Lines of a text of hexadecimal digits\<close>

lemma match_prefix_head:
  "c \<notin> set break_heads \<Longrightarrow> match_prefix line_breaks (c # ys) = 0"
  by (simp add: line_breaks_def break_heads_def)

lemma hex_not_break: "c \<in> set hex_digits \<Longrightarrow> c \<notin> set break_heads"
  by (auto simp: hex_digits_def break_heads_def)

lemma match_prefix_hex:
  "c \<in> set hex_digits \<Longrightarrow> match_prefix line_breaks (c # ys) = 0"
  by (simp add: match_prefix_head hex_not_break)

lemma splitlines_from_Nil: "splitlines_from cur [] = (if cur = [] then [] else [cur])"
  by (simp add: splitlines_from.simps)

lemma splitlines_from_hex:
  "set xs \<subseteq> set hex_digits \<Longrightarrow> splitlines_from cur (xs @ ys) = splitlines_from (cur @ xs) ys"
proof (induction xs arbitrary: cur)
  case Nil
  show ?case by simp
next
  case (Cons c xs)
  then have c: "match_prefix line_breaks (c # (xs @ ys)) = 0" and xs: "set xs \<subseteq> set hex_digits"
    by (simp_all add: match_prefix_hex)
  have "splitlines_from cur ((c # xs) @ ys) = splitlines_from (cur @ [c]) (xs @ ys)"
    using c by (subst splitlines_from.simps) simp
  also have "\<dots> = splitlines_from ((cur @ [c]) @ xs) ys"
    using xs by (rule Cons.IH)
  finally show ?case by simp
qed

lemma splitlines_from_LF:
  "splitlines_from cur (CHR 0x0A # ys) = cur # splitlines_from [] ys"
  by (subst splitlines_from.simps) (simp add: line_breaks_def)

lemma splitlines_hex:
  "set xs \<subseteq> set hex_digits \<Longrightarrow> splitlines xs = (if xs = [] then [] else [xs])"
  using splitlines_from_hex [of xs "[]" "[]"] by (simp add: splitlines_def splitlines_from_Nil)

lemma splitlines_hex_LF:
  "set xs \<subseteq> set hex_digits \<Longrightarrow> splitlines (xs @ CHR 0x0A # ys) = xs # splitlines ys"
  using splitlines_from_hex [of xs "[]" "CHR 0x0A # ys"]
  by (simp add: splitlines_def splitlines_from_LF)

lemma splitlines_file_text:
  assumes "set F \<subseteq> set hex_digits" and "set S \<subseteq> set hex_digits"
  shows "splitlines (file_text F S) = [F, S]"
proof -
  have "splitlines (file_text F S) = F # splitlines (S @ CHR 0x0A # [])"
    using assms(1) by (simp add: file_text_def splitlines_hex_LF)
  also have "\<dots> = F # S # splitlines []"
    using assms(2) by (simp only: splitlines_hex_LF)
  finally show ?thesis by (simp add: splitlines_def splitlines_from_Nil)
qed

lemma fst_load_Content:
  "fst (load_hashes (Content t)) =
     (if length (splitlines t) = 2 then (Some (splitlines t ! 0), Some (splitlines t ! 1))
      else (None, None))"
  by (simp add: load_hashes_def Let_def)

section \<open>Facts about the notifier and the loop\<close>

lemma notify_calls_append [simp]: "notify_calls (xs @ ys) = notify_calls xs @ notify_calls ys"
  by (induction xs rule: notify_calls.induct) simp_all

lemma posts_append [simp]: "posts (xs @ ys) = posts xs @ posts ys"
  by (induction xs rule: posts.induct) simp_all

lemma sleeps_append [simp]: "sleeps (xs @ ys) = sleeps xs + sleeps ys"
  by (induction xs rule: sleeps.induct) simp_all

lemma caught_only_Inl:
  assumes "caught_only post" and "post req = Inl x"
  shows "x = RequestException"
  using assms(1) [unfolded caught_only_def, THEN spec, of req] assms(2) by simp

lemma send_telegram_caught:
  assumes "caught_only post"
  shows "send_telegram cfg post (telegram_text subject body) =
     (if telegram_configured cfg
      then (Inr (delivered post (telegram_request cfg subject body)),
            [Post (telegram_request cfg subject body),
             if delivered post (telegram_request cfg subject body) then Log INFO TelegramSent
             else Log ERROR TelegramFailed])
      else (Inr False, [Log DEBUG TelegramSkipped]))"
proof (cases "post (telegram_request cfg subject body)")
  case (Inl x)
  with assms have "x = RequestException" by (simp add: caught_only_Inl)
  with Inl show ?thesis
    by (simp add: send_telegram_def telegram_configured_def telegram_request_def delivered_def)
next
  case (Inr status)
  then show ?thesis
    by (simp add: send_telegram_def telegram_configured_def telegram_request_def delivered_def)
qed

lemma send_mail_caught:
  assumes "caught_only post"
  shows "send_mail cfg post subject body =
     (if mail_configured cfg
      then (Inr (delivered post (mail_request cfg subject body)),
            [Post (mail_request cfg subject body),
             if delivered post (mail_request cfg subject body) then Log INFO (MailSent subject)
             else Log ERROR MailFailed])
      else (Inr False, [Log DEBUG MailSkipped]))"
proof (cases "post (mail_request cfg subject body)")
  case (Inl x)
  with assms have "x = RequestException" by (simp add: caught_only_Inl)
  with Inl show ?thesis
    by (simp add: send_mail_def mail_configured_def mail_request_def delivered_def)
next
  case (Inr status)
  then show ?thesis
    by (simp add: send_mail_def mail_configured_def mail_request_def delivered_def)
qed



lemma notify_caught:
  assumes "caught_only post"
  shows "notify cfg post subject body =
     (Inr (),
      NotifyCall subject body #
      snd (send_telegram cfg post (telegram_text subject body)) @
      snd (send_mail cfg post subject body) @
      (if (telegram_configured cfg \<and> delivered post (telegram_request cfg subject body)) \<or>
          (mail_configured cfg \<and> delivered post (mail_request cfg subject body))
       then [] else [Log WARNING NothingSent]))"
  by (simp add: notify_def send_telegram_caught [OF assms] send_mail_caught [OF assms])

lemma notify_calls_send_telegram: "notify_calls (snd (send_telegram cfg post m)) = []"
proof (cases "post (TelegramSendMessage (value_of (telegram_bot_token cfg))
                (value_of (telegram_chat_id cfg)) m)")
  case (Inl x)
  then show ?thesis by (simp add: send_telegram_def Let_def)
next
  case (Inr status)
  then show ?thesis by (simp add: send_telegram_def Let_def)
qed

lemma notify_calls_send_mail: "notify_calls (snd (send_mail cfg post s b)) = []"
proof (cases "post (BrevoSendEmail (value_of (brevo_api_key cfg)) (from_name cfg)
                (value_of (from_email cfg)) (map strip (split_comma (value_of (mail_to cfg)))) s b)")
  case (Inl x)
  then show ?thesis by (simp add: send_mail_def Let_def)
next
  case (Inr status)
  then show ?thesis by (simp add: send_mail_def Let_def)
qed

lemma notify_calls_notify:
  "notify_calls (snd (notify cfg post subject body)) = [(subject, body)]"
proof -
  obtain r1 ev1 where t: "send_telegram cfg post (telegram_text subject body) = (r1, ev1)"
    by (cases "send_telegram cfg post (telegram_text subject body)")
  obtain r2 ev2 where m: "send_mail cfg post subject body = (r2, ev2)"
    by (cases "send_mail cfg post subject body")
  have "notify_calls ev1 = []" and "notify_calls ev2 = []"
    using notify_calls_send_telegram [of cfg post "telegram_text subject body"]
      notify_calls_send_mail [of cfg post subject body] t m by simp_all
  then show ?thesis
    by (cases r1; cases r2) (simp_all add: notify_def t m)
qed

lemma fetch_page_events: "snd (fetch_page e) = [Get]"
  by (cases "http_get e") (simp_all add: fetch_page_def split: prod.splits)

lemma fetch_page_eq: "fetch_page e = (fst (fetch_page e), [Get])"
  using fetch_page_events [of e] by (cases "fetch_page e") simp

lemma check_page_failed:
  assumes "fst (fetch_page e) = Inl x"
  shows "check_page L cfg e w = (Inl x, w, [Log INFO Checking, Get])"
proof -
  have "fetch_page e = (Inl x, [Get])"
    using fetch_page_eq [of e] assms by simp
  then show ?thesis by (simp add: check_page_def)
qed

lemma check_page_fetched:
  assumes "fst (fetch_page e) = Inr html"
  shows "check_page L cfg e w =
     (case compare_hashes cfg e w (get_hash L (Some html))
             (fst (extract_training_section L html))
             (get_hash L (fst (extract_training_section L html))) of
        (Inl x, ev2) \<Rightarrow>
          (Inl x, w, Log INFO Checking # [Get] @ snd (extract_training_section L html) @ ev2)
      | (Inr u, ev2) \<Rightarrow>
          (case save_hashes (fs_fault e) (get_hash L (Some html))
                  (get_hash L (fst (extract_training_section L html))) (hash_file w) of
             (Inl x, f, ev3) \<Rightarrow>
               (Inl x, w\<lparr>hash_file := f\<rparr>,
                Log INFO Checking # [Get] @ snd (extract_training_section L html) @ ev2 @ ev3)
           | (Inr v, f, ev3) \<Rightarrow>
               (Inr (),
                \<lparr>last_full_hash = Some (get_hash L (Some html)),
                 last_section_hash = Some (get_hash L (fst (extract_training_section L html))),
                 hash_file = f\<rparr>,
                Log INFO Checking # [Get] @ snd (extract_training_section L html) @ ev2 @ ev3)))"
proof -
  have "fetch_page e = (Inr html, [Get])"
    using fetch_page_eq [of e] assms by simp
  then show ?thesis by (simp add: check_page_def Let_def)
qed

lemma check_page_world:
  "fst (snd (check_page L cfg e w)) = w \<or>
   (\<exists>f. fst (snd (check_page L cfg e w)) = w\<lparr>hash_file := f\<rparr>) \<or>
   (\<exists>F S f. fst (snd (check_page L cfg e w)) =
      \<lparr>last_full_hash = Some F, last_section_hash = Some S, hash_file = f\<rparr>)"
proof (cases "fst (fetch_page e)")
  case (Inl x)
  then show ?thesis by (simp add: check_page_failed)
next
  case (Inr html)
  obtain r2 ev2 where c: "compare_hashes cfg e w (get_hash L (Some html))
             (fst (extract_training_section L html))
             (get_hash L (fst (extract_training_section L html))) = (r2, ev2)"
    by (cases "compare_hashes cfg e w (get_hash L (Some html))
             (fst (extract_training_section L html))
             (get_hash L (fst (extract_training_section L html)))")
  obtain r3 f ev3 where s: "save_hashes (fs_fault e) (get_hash L (Some html))
                  (get_hash L (fst (extract_training_section L html))) (hash_file w) = (r3, f, ev3)"
    by (cases "save_hashes (fs_fault e) (get_hash L (Some html))
                  (get_hash L (fst (extract_training_section L html))) (hash_file w)")
  show ?thesis
    by (cases r2; cases r3) (auto simp: check_page_fetched [OF Inr] c s)
qed

lemma guarded_check_world: "fst (guarded_check L cfg e w) = fst (snd (check_page L cfg e w))"
  by (cases "check_page L cfg e w") (simp add: guarded_check_def)

lemma guarded_check_events:
  "snd (guarded_check L cfg e w) =
     snd (snd (check_page L cfg e w)) @ handle (fst (check_page L cfg e w))"
  by (cases "check_page L cfg e w") (simp add: guarded_check_def)

lemma guarded_check_paired: "paired w \<Longrightarrow> paired (fst (guarded_check L cfg e w))"
  using check_page_world [of L cfg e w] by (auto simp: guarded_check_world paired_def)

lemma guarded_check_steady:
  "last_full_hash w \<noteq> None \<Longrightarrow> last_full_hash (fst (guarded_check L cfg e w)) \<noteq> None"
  using check_page_world [of L cfg e w] by (auto simp: guarded_check_world)

lemma wait_then_eq:
  "wait_then cfg e w rest =
     (case fst (sleep e (check_interval cfg)) of
        Inl x \<Rightarrow> (Some x, w, [Log INFO (Waiting (check_interval cfg))])
      | Inr u \<Rightarrow>
          (fst rest, fst (snd rest),
           Log INFO (Waiting (check_interval cfg)) # Sleep (check_interval cfg) # snd (snd rest)))"
  by (cases rest; cases "os_sleep e (check_interval cfg)") (simp_all add: wait_then_def sleep_def)

lemma main_loop_Cons:
  "main_loop L cfg (e # es) w =
     (case fst (sleep e (check_interval cfg)) of
        Inl x \<Rightarrow>
          (Some x, fst (guarded_check L cfg e w),
           snd (guarded_check L cfg e w) @ [Log INFO (Waiting (check_interval cfg))])
      | Inr u \<Rightarrow>
          (fst (main_loop L cfg es (fst (guarded_check L cfg e w))),
           fst (snd (main_loop L cfg es (fst (guarded_check L cfg e w)))),
           snd (guarded_check L cfg e w) @
           Log INFO (Waiting (check_interval cfg)) # Sleep (check_interval cfg) #
           snd (snd (main_loop L cfg es (fst (guarded_check L cfg e w))))))"
  by (cases "guarded_check L cfg e w"; cases "fst (sleep e (check_interval cfg))")
    (simp_all add: wait_then_eq)

lemma main_loop_invariant:
  assumes step: "\<And>e w. P w \<Longrightarrow> P (fst (guarded_check L cfg e w))" and "P w"
  shows "P (fst (snd (main_loop L cfg es w)))"
  using assms(2)
proof (induction es arbitrary: w)
  case Nil
  then show ?case by simp
next
  case (Cons e es)
  from Cons.prems have "P (fst (guarded_check L cfg e w))" by (rule step)
  then show ?case
    using Cons.IH
    by (cases "fst (sleep e (check_interval cfg))") (simp_all add: main_loop_Cons del: main_loop.simps)
qed

lemma main_world: "fst (snd (main L cfg f es)) = fst (snd (main_loop L cfg es (initial_world f)))"
  by (cases "main_loop L cfg es (initial_world f)") (simp add: main_def)

lemma load_hashes_paired:
  "(fst (fst (load_hashes f)) = None) = (snd (fst (load_hashes f)) = None)"
  by (cases f) (simp_all add: load_hashes_def Let_def)

lemma initial_world_paired: "paired (initial_world f)"
  using load_hashes_paired [of f] by (simp add: paired_def initial_world_def)

lemma load_hashes_none_iff:
  "(fst (load_hashes f) = (None, None)) =
   (f = Absent \<or> f = Unreadable \<or> (\<exists>t. f = Content t \<and> length (splitlines t) \<noteq> 2))"
  by (cases f) (simp_all add: load_hashes_def Let_def)

lemma main_loop_steady:
  assumes "last_full_hash w \<noteq> None"
  shows "last_full_hash (fst (snd (main_loop L cfg es w))) \<noteq> None"
  by (rule main_loop_invariant [where P = "\<lambda>w. last_full_hash w \<noteq> None"])
    (simp_all add: guarded_check_steady assms)

lemma compare_hashes_baseline:
  "(compare_hashes cfg e w F sec S = (Inr (), [Log INFO BaselineSet])) = (last_full_hash w = None)"
proof (cases "last_full_hash w = None")
  case True
  then show ?thesis by (simp add: compare_hashes_def)
next
  case False
  obtain r1 e1 where n1: "notify cfg (http_post e) structure_subject structure_body = (r1, e1)"
    by (cases "notify cfg (http_post e) structure_subject structure_body")
  obtain r2 e2 where n2: "notify cfg (http_post e) update_subject (update_body sec) = (r2, e2)"
    by (cases "notify cfg (http_post e) update_subject (update_body sec)")
  from False show ?thesis
    by (cases r1; cases e1) (auto simp: compare_hashes_def n1 n2)
qed





lemma extract_events:
  "snd (extract_training_section L html) =
     (if find_header (html_parser L html) = None then [Log DEBUG HeaderNotFound] else [])"
  by (cases "find_header (html_parser L html)") (simp_all add: extract_training_section_def Let_def)

lemma save_hashes_events:
  "snd (snd (save_hashes fault F S f)) = (if fault = NoFault then [Log DEBUG HashesSaved] else [])"
  by (cases fault) simp_all







lemma posts_notify_caught:
  assumes "caught_only post"
  shows "posts (snd (notify cfg post subject body)) = channel_requests cfg subject body"
  by (simp add: notify_caught [OF assms] send_telegram_caught [OF assms]
      send_mail_caught [OF assms] channel_requests_def)

lemma posts_compare_hashes:
  assumes c: "caught_only (http_post e)" and steady: "last_full_hash w \<noteq> None"
  shows "posts (snd (compare_hashes cfg e w F sec S)) =
       (if Some F \<noteq> last_full_hash w
        then channel_requests cfg structure_subject structure_body else []) @
       (if Some S \<noteq> last_section_hash w
        then channel_requests cfg update_subject (update_body sec) else [])"
proof -
  obtain e1 where n1: "notify cfg (http_post e) structure_subject structure_body = (Inr (), e1)"
    using notify_caught [OF c, of cfg structure_subject structure_body] by simp
  obtain e2 where n2: "notify cfg (http_post e) update_subject (update_body sec) = (Inr (), e2)"
    using notify_caught [OF c, of cfg update_subject "update_body sec"] by simp
  have "posts e1 = channel_requests cfg structure_subject structure_body"
    and "posts e2 = channel_requests cfg update_subject (update_body sec)"
    using posts_notify_caught [OF c, of cfg structure_subject structure_body]
      posts_notify_caught [OF c, of cfg update_subject "update_body sec"] n1 n2
    by simp_all
  with steady show ?thesis
    by (auto simp: compare_hashes_def n1 n2)
qed

lemma posts_check_page:
  assumes "fst (fetch_page e) = Inr html"
  shows "posts (snd (snd (check_page L cfg e w))) =
     posts (snd (compare_hashes cfg e w (get_hash L (Some html))
             (fst (extract_training_section L html))
             (get_hash L (fst (extract_training_section L html)))))"
proof -
  obtain r2 ev2 where c: "compare_hashes cfg e w (get_hash L (Some html))
             (fst (extract_training_section L html))
             (get_hash L (fst (extract_training_section L html))) = (r2, ev2)"
    by (cases "compare_hashes cfg e w (get_hash L (Some html))
             (fst (extract_training_section L html))
             (get_hash L (fst (extract_training_section L html)))")
  obtain r3 f ev3 where s: "save_hashes (fs_fault e) (get_hash L (Some html))
                  (get_hash L (fst (extract_training_section L html))) (hash_file w) = (r3, f, ev3)"
    by (cases "save_hashes (fs_fault e) (get_hash L (Some html))
                  (get_hash L (fst (extract_training_section L html))) (hash_file w)")
  have "posts ev3 = []"
    using save_hashes_events [of "fs_fault e" "get_hash L (Some html)"
        "get_hash L (fst (extract_training_section L html))" "hash_file w"] s
    by (simp split: if_splits)
  then show ?thesis
    by (cases r2; cases r3) (simp_all add: check_page_fetched [OF assms] c s extract_events)
qed

lemma posts_handle: "posts (handle r) = []"
  by (cases r) (simp_all add: handle_def)

lemma notify_calls_compare_hashes:
  assumes steady: "last_full_hash w \<noteq> None"
    and first: "Some F \<noteq> last_full_hash w \<longrightarrow>
      fst (notify cfg (http_post e) structure_subject structure_body) = Inr ()"
  shows "notify_calls (snd (compare_hashes cfg e w F sec S)) =
       (if Some F \<noteq> last_full_hash w then [(structure_subject, structure_body)] else []) @
       (if Some S \<noteq> last_section_hash w then [(update_subject, update_body sec)] else [])"
proof -
  obtain r1 e1 where n1: "notify cfg (http_post e) structure_subject structure_body = (r1, e1)"
    by (cases "notify cfg (http_post e) structure_subject structure_body")
  obtain r2 e2 where n2: "notify cfg (http_post e) update_subject (update_body sec) = (r2, e2)"
    by (cases "notify cfg (http_post e) update_subject (update_body sec)")
  have c: "notify_calls e1 = [(structure_subject, structure_body)]"
    "notify_calls e2 = [(update_subject, update_body sec)]"
    using notify_calls_notify [of cfg "http_post e" structure_subject structure_body]
      notify_calls_notify [of cfg "http_post e" update_subject "update_body sec"] n1 n2
    by simp_all
  show ?thesis
  proof (cases "Some F = last_full_hash w")
    case True
    with steady c show ?thesis
      by (auto simp: compare_hashes_def n2)
  next
    case False
    with first n1 have "r1 = Inr ()" by simp
    with False steady c show ?thesis
      by (auto simp: compare_hashes_def n1 n2)
  qed
qed

lemma notify_calls_check_page:
  assumes "fst (fetch_page e) = Inr html"
  shows "notify_calls (snd (snd (check_page L cfg e w))) =
     notify_calls (snd (compare_hashes cfg e w (get_hash L (Some html))
             (fst (extract_training_section L html))
             (get_hash L (fst (extract_training_section L html)))))"
proof -
  obtain r2 ev2 where c: "compare_hashes cfg e w (get_hash L (Some html))
             (fst (extract_training_section L html))
             (get_hash L (fst (extract_training_section L html))) = (r2, ev2)"
    by (cases "compare_hashes cfg e w (get_hash L (Some html))
             (fst (extract_training_section L html))
             (get_hash L (fst (extract_training_section L html)))")
  obtain r3 f ev3 where s: "save_hashes (fs_fault e) (get_hash L (Some html))
                  (get_hash L (fst (extract_training_section L html))) (hash_file w) = (r3, f, ev3)"
    by (cases "save_hashes (fs_fault e) (get_hash L (Some html))
                  (get_hash L (fst (extract_training_section L html))) (hash_file w)")
  have "notify_calls ev3 = []"
    using save_hashes_events [of "fs_fault e" "get_hash L (Some html)"
        "get_hash L (fst (extract_training_section L html))" "hash_file w"] s
    by (simp split: if_splits)
  then show ?thesis
    by (cases r2; cases r3) (simp_all add: check_page_fetched [OF assms] c s extract_events)
qed

lemma notify_calls_handle: "notify_calls (handle r) = []"
  by (cases r) (simp_all add: handle_def)

lemma extract_never_empty: "fst (extract_training_section L html) \<noteq> Some []"
  by (cases "find_header (html_parser L html)") (simp_all add: extract_training_section_def Let_def)

lemma or_else_section:
  "sec \<noteq> Some [] \<Longrightarrow> or_else sec d = (case sec of None \<Rightarrow> d | Some s \<Rightarrow> s)"
  by (cases sec) simp_all

lemma check_page_baseline:
  assumes "fst (fetch_page e) = Inr html" and "last_full_hash w = None" and "fs_fault e = NoFault"
  shows "check_page L cfg e w =
     (Inr (),
      \<lparr>last_full_hash = Some (get_hash L (Some html)),
       last_section_hash = Some (get_hash L (fst (extract_training_section L html))),
       hash_file = Content (file_text (get_hash L (Some html))
         (get_hash L (fst (extract_training_section L html))))\<rparr>,
      Log INFO Checking # Get # snd (extract_training_section L html) @
      [Log INFO BaselineSet, Log DEBUG HashesSaved])"
  using assms(2,3) by (simp add: check_page_fetched [OF assms(1)] compare_hashes_def)

section \<open>Hasher: absent and empty text\<close>

text \<open>
  C4. The hasher is a function of the optional text alone: the absent value has the
  digest of the empty string, and two values that stand for the same text (\<^verbatim>\<open>content or ""\<close>)
  have the same digest, whatever the digest function is.
\<close>

theorem get_hash_absent_is_empty:
  "get_hash L None = get_hash L (Some []) \<and>
   (\<forall>c c'. or_else c [] = or_else c' [] \<longrightarrow> get_hash L c = get_hash L c')"
  by (simp add: get_hash_def)

theorem get_hash_absent_is_empty_witness:
  "or_else None [] = or_else (Some []) [] \<and>
   get_hash (example_lib []) None = get_hash (example_lib []) (Some [])"
  using get_hash_absent_is_empty [of "example_lib []"] by simp

section \<open>State store: a write that stops part-way\<close>

text \<open>
  C8, as the code has it. The file is truncated and then filled from the front, and
  \<^verbatim>\<open>load_hashes\<close> only counts lines. For two digests and every number \<^verbatim>\<open>k\<close> of characters
  written before the process stopped, loading returns: no prior state while the second
  line has not started (\<^verbatim>\<open>k\<close> at most the length of the first digest plus its newline);
  after that the new full-page digest together with the part of the new section digest
  written so far, which is the whole digest once all of it was written. No digest of the
  old file is ever returned.
\<close>

theorem load_after_partial_write:
  assumes F: "is_hexdigest F" and S: "is_hexdigest S"
  shows "fst (load_hashes (file_after_crash k F S)) =
     (if k \<le> length F + 1 then (None, None)
      else (Some F, Some (take (k - (length F + 1)) S)))"
proof -
  from F S have hF: "set F \<subseteq> set hex_digits" and hS: "set S \<subseteq> set hex_digits"
    and lS: "length S = 64"
    by (simp_all add: is_hexdigest_def)
  have hT: "set (take j X) \<subseteq> set hex_digits" if "set X \<subseteq> set hex_digits" for j X
    using that set_take_subset [of j X] by blast
  consider (a) "k \<le> length F" | (b) "length F < k"
    by linarith
  then have "splitlines (take k (file_text F S)) =
     (if k \<le> length F + 1 then (if k \<le> length F then (if take k F = [] then [] else [take k F]) else [F])
      else [F, take (k - (length F + 1)) S])"
  proof cases
    case a
    then have "take k (file_text F S) = take k F"
      by (simp add: file_text_def)
    with a show ?thesis
      by (simp add: splitlines_hex hT [OF hF])
  next
    case b
    define j where "j = k - (length F + 1)"
    from b have k: "k - length F = Suc j"
      by (simp add: j_def)
    have t: "take k (file_text F S) = F @ CHR 0x0A # take j (S @ [CHR 0x0A])"
      using b k by (simp add: file_text_def)
    show ?thesis
    proof (cases "j \<le> length S")
      case True
      then have "take j (S @ [CHR 0x0A]) = take j S" by simp
      with t have "splitlines (take k (file_text F S)) = F # splitlines (take j S)"
        using hF by (simp add: splitlines_hex_LF)
      also have "\<dots> = F # (if take j S = [] then [] else [take j S])"
        by (simp add: splitlines_hex hT [OF hS])
      finally show ?thesis
        using b lS by (auto simp: j_def)
    next
      case False
      then have "take j (S @ [CHR 0x0A]) = S @ [CHR 0x0A]" and "take j S = S" by simp_all
      with t have "take k (file_text F S) = file_text F S" and "take (k - (length F + 1)) S = S"
        by (simp_all add: file_text_def j_def)
      then show ?thesis
        using b False by (simp add: splitlines_file_text hF hS j_def)
    qed
  qed
  then show ?thesis
    by (simp add: file_after_crash_def fst_load_Content)
qed

theorem load_after_partial_write_witness:
  "is_hexdigest digest_of_page \<and> is_hexdigest digest_of_empty \<and>
   fst (load_hashes (file_after_crash 130 digest_of_page digest_of_empty)) =
     (Some digest_of_page, Some digest_of_empty)"
proof -
  have F: "is_hexdigest digest_of_page" and S: "is_hexdigest digest_of_empty"
    by (simp_all add: is_hexdigest_def hex_digits_def digest_of_page_def digest_of_empty_def)
  have "length digest_of_page = 64" and "length digest_of_empty = 64"
    using F S by (simp_all add: is_hexdigest_def)
  with load_after_partial_write [OF F S, of 130] F S show ?thesis by simp
qed

text \<open>
  C8, as stated, fails when the write stops inside the second digest: after 66
  characters the file holds the first digest, the newline and one character, which are
  two lines, and loading accepts the pair of the full-page digest and the text \<^verbatim>\<open>e\<close>.
\<close>

theorem load_accepts_truncated_digest:
  "fst (load_hashes (file_after_crash 66 digest_of_page digest_of_empty)) =
     (Some digest_of_page, Some ''e'') \<and>
   ''e'' \<noteq> digest_of_empty"
  by code_simp

section \<open>Notifier: every configured channel is attempted\<close>



section \<open>State store and loop: both digests or none\<close>

text \<open>
  C10. Whatever the state file is, \<^verbatim>\<open>load_hashes\<close> returns both digests or neither; and
  after any number of cycles of \<^verbatim>\<open>main\<close>, with any answers of the world, the two variables
  of the loop are still both set or both \<^verbatim>\<open>None\<close>. So when the test of the first variable
  selects the comparing branch, the section digest it compares with is present.
\<close>

theorem hashes_present_or_absent_together:
  "(fst (fst (load_hashes f)) = None) = (snd (fst (load_hashes f)) = None) \<and>
   (last_full_hash (fst (snd (main L cfg f es))) = None) =
   (last_section_hash (fst (snd (main L cfg f es))) = None)"
proof
  show "(fst (fst (load_hashes f)) = None) = (snd (fst (load_hashes f)) = None)"
    by (rule load_hashes_paired)
  have "paired (fst (snd (main_loop L cfg es (initial_world f))))"
    by (rule main_loop_invariant [where P = paired]) (simp_all add: guarded_check_paired initial_world_paired)
  then show "(last_full_hash (fst (snd (main L cfg f es))) = None) =
   (last_section_hash (fst (snd (main L cfg f es))) = None)"
    by (simp add: main_world paired_def)
qed

section \<open>State store: the signal of the first run\<close>

text \<open>
  C6. \<^verbatim>\<open>load_hashes\<close> returns the pair of \<^verbatim>\<open>None\<close>, and does not raise, exactly when the file
  is absent, cannot be read, or has a number of lines other than two. The loop takes
  its baseline branch exactly when its first variable is \<^verbatim>\<open>None\<close>, and after any number
  of cycles of \<^verbatim>\<open>main\<close> that variable is \<^verbatim>\<open>None\<close> only if \<^verbatim>\<open>load_hashes\<close> returned that pair at
  the start.
\<close>

theorem first_run_only_without_loaded_state:
  "(fst (load_hashes f) = (None, None)) =
     (f = Absent \<or> f = Unreadable \<or> (\<exists>t. f = Content t \<and> length (splitlines t) \<noteq> 2)) \<and>
   (compare_hashes cfg e w F sec S = (Inr (), [Log INFO BaselineSet])) = (last_full_hash w = None) \<and>
   (last_full_hash (fst (snd (main L cfg f es))) = None \<longrightarrow> fst (load_hashes f) = (None, None))"
proof (intro conjI impI)
  show "(fst (load_hashes f) = (None, None)) =
     (f = Absent \<or> f = Unreadable \<or> (\<exists>t. f = Content t \<and> length (splitlines t) \<noteq> 2))"
    by (rule load_hashes_none_iff)
  show "(compare_hashes cfg e w F sec S = (Inr (), [Log INFO BaselineSet])) = (last_full_hash w = None)"
    by (rule compare_hashes_baseline)
  assume n: "last_full_hash (fst (snd (main L cfg f es))) = None"
  have "last_full_hash (initial_world f) = None"
  proof (rule ccontr)
    assume "last_full_hash (initial_world f) \<noteq> None"
    then have "last_full_hash (fst (snd (main_loop L cfg es (initial_world f)))) \<noteq> None"
      by (rule main_loop_steady)
    with n show False by (simp add: main_world)
  qed
  then have "fst (fst (load_hashes f)) = None"
    by (simp add: initial_world_def)
  with load_hashes_paired [of f] show "fst (load_hashes f) = (None, None)"
    by (cases "fst (load_hashes f)") simp
qed


theorem first_run_only_without_loaded_state_witness:
  "fst (load_hashes (Content ''abc'')) = (None, None) \<and>
   last_full_hash (fst (snd (main (example_lib []) (example_config 900) Absent [unavailable]))) = None \<and>
   fst (load_hashes Absent) = (None, None)"
proof -
  have a: "length (splitlines ''abc'') \<noteq> 2"
    by code_simp
  have b: "last_full_hash (fst (snd (main (example_lib []) (example_config 900) Absent [unavailable]))) = None"
    by code_simp
  show ?thesis
    using first_run_only_without_loaded_state [where f = "Content ''abc''"]
      first_run_only_without_loaded_state [where f = Absent and L = "example_lib []"
        and cfg = "example_config 900" and es = "[unavailable]"]
      a b
    by simp
qed

section \<open>Loop controller: a failed fetch\<close>




section \<open>Loop controller: what ends the loop\<close>




section \<open>Loop controller: the two comparisons\<close>

text \<open>
  C1, as the code has it. Take a cycle that starts with prior state loaded and in which
  the page is fetched. \<^verbatim>\<open>notify\<close> lets through an exception of a request that is not the one
  the senders catch, and that exception leaves the \<^verbatim>\<open>try\<close> statement. So if the structure
  notification, when one is sent, returns, then the notifications of the cycle are: the
  structure notification if and only if the new full-page digest differs from the stored
  one, followed by the update notification if and only if the new section digest differs
  from the stored one. The body of the update notification ends with the new section, or
  with the placeholder \<^verbatim>\<open>[leer]\<close> when there is none. If moreover every request either
  returns a response or raises the exception the senders catch, each notification that is
  sent posts one request to each configured channel. So both notifications fire when both
  digests differ, and only the update notification fires when only the section digest
  differs.
\<close>

theorem changes_are_notified_independently:
  assumes steady: "last_full_hash w \<noteq> None"
    and fetched: "fst (fetch_page e) = Inr html"
  shows "((Some (get_hash L (Some html)) \<noteq> last_full_hash w \<longrightarrow>
       fst (notify cfg (http_post e) structure_subject structure_body) = Inr ()) \<longrightarrow>
     notify_calls (snd (guarded_check L cfg e w)) =
       (if Some (get_hash L (Some html)) \<noteq> last_full_hash w
        then [(structure_subject, structure_body)] else []) @
       (if Some (get_hash L (fst (extract_training_section L html))) \<noteq> last_section_hash w
        then [(update_subject,
               update_intro @
               (case fst (extract_training_section L html) of
                  None \<Rightarrow> ''[leer]'' | Some content \<Rightarrow> content))]
        else [])) \<and>
    (caught_only (http_post e) \<longrightarrow>
     posts (snd (guarded_check L cfg e w)) =
       (if Some (get_hash L (Some html)) \<noteq> last_full_hash w
        then channel_requests cfg structure_subject structure_body else []) @
       (if Some (get_hash L (fst (extract_training_section L html))) \<noteq> last_section_hash w
        then channel_requests cfg update_subject
               (update_intro @
                (case fst (extract_training_section L html) of
                   None \<Rightarrow> ''[leer]'' | Some content \<Rightarrow> content))
        else []))"
proof (intro conjI impI)
  assume first: "Some (get_hash L (Some html)) \<noteq> last_full_hash w \<longrightarrow>
       fst (notify cfg (http_post e) structure_subject structure_body) = Inr ()"
  show "notify_calls (snd (guarded_check L cfg e w)) =
       (if Some (get_hash L (Some html)) \<noteq> last_full_hash w
        then [(structure_subject, structure_body)] else []) @
       (if Some (get_hash L (fst (extract_training_section L html))) \<noteq> last_section_hash w
        then [(update_subject,
               update_intro @
               (case fst (extract_training_section L html) of
                  None \<Rightarrow> ''[leer]'' | Some content \<Rightarrow> content))]
        else [])"
    using notify_calls_compare_hashes [OF steady first,
        of "fst (extract_training_section L html)" "get_hash L (fst (extract_training_section L html))"]
    by (simp add: guarded_check_events notify_calls_handle notify_calls_check_page [OF fetched]
        update_body_def or_else_section [OF extract_never_empty])
next
  assume transport: "caught_only (http_post e)"
  show "posts (snd (guarded_check L cfg e w)) =
       (if Some (get_hash L (Some html)) \<noteq> last_full_hash w
        then channel_requests cfg structure_subject structure_body else []) @
       (if Some (get_hash L (fst (extract_training_section L html))) \<noteq> last_section_hash w
        then channel_requests cfg update_subject
               (update_intro @
                (case fst (extract_training_section L html) of
                   None \<Rightarrow> ''[leer]'' | Some content \<Rightarrow> content))
        else [])"
    using posts_compare_hashes [OF transport steady, of cfg "get_hash L (Some html)"
        "fst (extract_training_section L html)" "get_hash L (fst (extract_training_section L html))"]
    by (simp add: guarded_check_events posts_handle posts_check_page [OF fetched]
        update_body_def or_else_section [OF extract_never_empty])
qed

theorem changes_are_notified_independently_witness:
  "last_full_hash before_section \<noteq> None \<and>
   fst (fetch_page (served page_with_rule_html)) = Inr page_with_rule_html \<and>
   fst (notify two_channel_config (http_post (served page_with_rule_html))
     structure_subject structure_body) = Inr () \<and>
   caught_only (http_post (served page_with_rule_html)) \<and>
   notify_calls (snd (guarded_check (example_lib page_with_rule) two_channel_config
      (served page_with_rule_html) before_section)) =
     [(update_subject, update_intro @ ''<p>A</p>'')] \<and>
   posts (snd (guarded_check (example_lib page_with_rule) two_channel_config
      (served page_with_rule_html) before_section)) =
     [telegram_request two_channel_config update_subject (update_intro @ ''<p>A</p>''),
      mail_request two_channel_config update_subject (update_intro @ ''<p>A</p>'')] \<and>
   last_full_hash steady_world \<noteq> None \<and>
   notify_calls (snd (guarded_check (example_lib page_with_rule) two_channel_config
      (served page_with_rule_html) steady_world)) =
     [(structure_subject, structure_body), (update_subject, update_intro @ ''<p>A</p>'')] \<and>
   posts (snd (guarded_check (example_lib page_with_rule) two_channel_config
      (served page_with_rule_html) steady_world)) =
     [telegram_request two_channel_config structure_subject structure_body,
      mail_request two_channel_config structure_subject structure_body,
      telegram_request two_channel_config update_subject (update_intro @ ''<p>A</p>''),
      mail_request two_channel_config update_subject (update_intro @ ''<p>A</p>'')]"
proof -
  have s1: "last_full_hash before_section \<noteq> None" and s2: "last_full_hash steady_world \<noteq> None"
    by (simp_all add: before_section_def steady_world_def)
  have f: "fst (fetch_page (served page_with_rule_html)) = Inr page_with_rule_html"
    by (simp add: fetch_page_def served_def raise_for_status_def)
  have c: "caught_only (http_post (served page_with_rule_html))"
    by (simp add: caught_only_def served_def)
  have r: "fst (notify two_channel_config (http_post (served page_with_rule_html))
     structure_subject structure_body) = Inr ()"
    by (simp add: notify_caught [OF c])
  have x: "fst (extract_training_section (example_lib page_with_rule) page_with_rule_html) =
      Some ''<p>A</p>''"
    by code_simp
  have a1: "Some (get_hash (example_lib page_with_rule) (Some page_with_rule_html)) =
      last_full_hash before_section"
    by code_simp
  have a2: "Some (get_hash (example_lib page_with_rule) (Some ''<p>A</p>'')) \<noteq>
      last_section_hash before_section"
    by code_simp
  have b1: "Some (get_hash (example_lib page_with_rule) (Some page_with_rule_html)) \<noteq>
      last_full_hash steady_world"
    by code_simp
  have b2: "Some (get_hash (example_lib page_with_rule) (Some ''<p>A</p>'')) \<noteq>
      last_section_hash steady_world"
    by code_simp
  have t: "telegram_configured two_channel_config" and m: "mail_configured two_channel_config"
    by (simp_all add: telegram_configured_def mail_configured_def two_channel_config_def)
  show ?thesis
    using changes_are_notified_independently [OF s1 f, of "example_lib page_with_rule"
        two_channel_config]
      changes_are_notified_independently [OF s2 f, of "example_lib page_with_rule"
        two_channel_config]
      s1 s2 f c r x a1 a2 b1 b2 t m
    by (simp add: channel_requests_def)
qed

text \<open>
  C1, as stated, fails in a cycle in which a notification request raises an exception
  the senders do not catch. Prior state is loaded, the page is fetched and both digests
  differ from the stored ones. The structure notification posts to the chat channel, its
  request to the mail channel raises, and the exception leaves \<^verbatim>\<open>notify\<close> and the \<^verbatim>\<open>try\<close>
  statement: the update notification is not sent although the section digest differs.
\<close>

theorem uncaught_exception_skips_the_update:
  "last_full_hash steady_world \<noteq> None \<and>
   fst (fetch_page (served_mail_raises page_with_rule_html)) = Inr page_with_rule_html \<and>
   Some (get_hash (example_lib page_with_rule)
     (fst (extract_training_section (example_lib page_with_rule) page_with_rule_html))) \<noteq>
     last_section_hash steady_world \<and>
   notify_calls (snd (guarded_check (example_lib page_with_rule) two_channel_config
      (served_mail_raises page_with_rule_html) steady_world)) =
     [(structure_subject, structure_body)] \<and>
   posts (snd (guarded_check (example_lib page_with_rule) two_channel_config
      (served_mail_raises page_with_rule_html) steady_world)) =
     [telegram_request two_channel_config structure_subject structure_body,
      mail_request two_channel_config structure_subject structure_body]"
  by code_simp

section \<open>Loop controller: the first run\<close>

text \<open>
  C2. When \<^verbatim>\<open>load_hashes\<close> returned no prior state (the file absent or not valid), the page
  is fetched and the state file can be written, the first cycle does not call \<^verbatim>\<open>notify\<close>
  and posts nothing, whatever the page is; afterwards the state file holds the new
  full-page digest and the new section digest, each followed by a newline, the two
  variables hold the same two digests, and loading the file returns exactly them.
\<close>

theorem first_run_sets_the_baseline:
  assumes first: "fst (load_hashes f) = (None, None)"
    and fetched: "fst (fetch_page e) = Inr html"
    and saved: "fs_fault e = NoFault"
    and F: "is_hexdigest (get_hash L (Some html))"
    and S: "is_hexdigest (get_hash L (fst (extract_training_section L html)))"
  shows "notify_calls (snd (guarded_check L cfg e (initial_world f))) = [] \<and>
    posts (snd (guarded_check L cfg e (initial_world f))) = [] \<and>
    hash_file (fst (guarded_check L cfg e (initial_world f))) =
      Content (get_hash L (Some html) @ [CHR 0x0A] @
               get_hash L (fst (extract_training_section L html)) @ [CHR 0x0A]) \<and>
    last_full_hash (fst (guarded_check L cfg e (initial_world f))) = Some (get_hash L (Some html)) \<and>
    last_section_hash (fst (guarded_check L cfg e (initial_world f))) =
      Some (get_hash L (fst (extract_training_section L html))) \<and>
    fst (load_hashes (hash_file (fst (guarded_check L cfg e (initial_world f))))) =
      (last_full_hash (fst (guarded_check L cfg e (initial_world f))),
       last_section_hash (fst (guarded_check L cfg e (initial_world f))))"
proof -
  have n: "last_full_hash (initial_world f) = None"
    using first by (simp add: initial_world_def)
  have g: "guarded_check L cfg e (initial_world f) =
     (\<lparr>last_full_hash = Some (get_hash L (Some html)),
       last_section_hash = Some (get_hash L (fst (extract_training_section L html))),
       hash_file = Content (file_text (get_hash L (Some html))
         (get_hash L (fst (extract_training_section L html))))\<rparr>,
      Log INFO Checking # Get # snd (extract_training_section L html) @
      [Log INFO BaselineSet, Log DEBUG HashesSaved])"
    by (simp add: guarded_check_def check_page_baseline [OF fetched n saved] handle_def)
  from F S have "splitlines (file_text (get_hash L (Some html))
         (get_hash L (fst (extract_training_section L html)))) =
       [get_hash L (Some html), get_hash L (fst (extract_training_section L html))]"
    by (simp add: splitlines_file_text is_hexdigest_def)
  then show ?thesis
    by (simp add: g extract_events fst_load_Content) (simp add: file_text_def)
qed


theorem first_run_sets_the_baseline_witness:
  "fst (load_hashes Absent) = (None, None) \<and>
   fst (fetch_page (served page_with_rule_html)) = Inr page_with_rule_html \<and>
   fs_fault (served page_with_rule_html) = NoFault \<and>
   is_hexdigest (get_hash (example_lib page_with_rule) (Some page_with_rule_html)) \<and>
   is_hexdigest (get_hash (example_lib page_with_rule)
     (fst (extract_training_section (example_lib page_with_rule) page_with_rule_html))) \<and>
   notify_calls (snd (guarded_check (example_lib page_with_rule) two_channel_config
     (served page_with_rule_html) (initial_world Absent))) = [] \<and>
   last_full_hash (fst (guarded_check (example_lib page_with_rule) two_channel_config
     (served page_with_rule_html) (initial_world Absent))) =
     Some (length_digest page_with_rule_html) \<and>
   last_section_hash (fst (guarded_check (example_lib page_with_rule) two_channel_config
     (served page_with_rule_html) (initial_world Absent))) =
     Some (length_digest ''<p>A</p>'') \<and>
   fst (load_hashes (hash_file (fst (guarded_check (example_lib page_with_rule) two_channel_config
     (served page_with_rule_html) (initial_world Absent))))) =
     (last_full_hash (fst (guarded_check (example_lib page_with_rule) two_channel_config
        (served page_with_rule_html) (initial_world Absent))),
      last_section_hash (fst (guarded_check (example_lib page_with_rule) two_channel_config
        (served page_with_rule_html) (initial_world Absent))))"
proof -
  have l: "fst (load_hashes Absent) = (None, None)"
    by (simp add: load_hashes_def)
  have f: "fst (fetch_page (served page_with_rule_html)) = Inr page_with_rule_html"
    by (simp add: fetch_page_def served_def raise_for_status_def)
  have n: "fs_fault (served page_with_rule_html) = NoFault"
    by (simp add: served_def)
  have x: "fst (extract_training_section (example_lib page_with_rule) page_with_rule_html) =
      Some ''<p>A</p>''"
    by code_simp
  have h1: "is_hexdigest (get_hash (example_lib page_with_rule) (Some page_with_rule_html))"
    by code_simp
  have h2: "is_hexdigest (get_hash (example_lib page_with_rule)
     (fst (extract_training_section (example_lib page_with_rule) page_with_rule_html)))"
    by code_simp
  have g1: "get_hash (example_lib page_with_rule) (Some page_with_rule_html) =
      length_digest page_with_rule_html"
    and g2: "get_hash (example_lib page_with_rule) (Some ''<p>A</p>'') = length_digest ''<p>A</p>''"
    by (simp_all add: get_hash_def example_lib_def page_with_rule_html_def)
  note t = first_run_sets_the_baseline [OF l f n h1 h2, of two_channel_config, unfolded x g1 g2]
  from t l f n h1 h2 show ?thesis
    by blast
qed

section \<open>Extractor: where the section ends\<close>

text \<open>
  The extractor and the extractor of the specification agree on every page in which no
  element that follows the heading has a name that starts with \<^verbatim>\<open>h\<close> without being a
  heading.
\<close>

lemma is_heading_starts_with_h: "is_heading n \<Longrightarrow> starts_with_h n"
  by (auto simp: is_heading_def starts_with_h_def)

lemma extract_agrees_with_specification:
  assumes "\<And>following. find_header (html_parser L html) = Some following \<Longrightarrow>
     \<forall>sibling \<in> set (find_next_siblings following).
       starts_with_h (tag_name sibling) \<longrightarrow> is_heading (tag_name sibling)"
  shows "fst (extract_training_section L html) = section_until_heading L html"
proof (cases "find_header (html_parser L html)")
  case None
  then show ?thesis
    by (simp add: extract_training_section_def section_until_heading_def)
next
  case (Some following)
  from assms [OF Some] have "takeWhile (\<lambda>sibling. \<not> starts_with_h (tag_name sibling))
      (find_next_siblings following) =
    takeWhile (\<lambda>sibling. \<not> is_heading (tag_name sibling)) (find_next_siblings following)"
    by (intro takeWhile_cong refl) (auto dest: is_heading_starts_with_h)
  with Some show ?thesis
    by (simp add: extract_training_section_def section_until_heading_def Let_def)
qed

text \<open>
  C3 at a page where the code and the claim part. The heading is followed by a
  paragraph, a rule \<^verbatim>\<open><hr/>\<close>, a second paragraph and a heading \<^verbatim>\<open>h6\<close>. The name of the rule
  starts with \<^verbatim>\<open>h\<close>, so the loop of the extractor stops there and returns the first
  paragraph only; the elements up to the next heading are the paragraph, the rule and the
  second paragraph.
\<close>

theorem extract_stops_at_rule:
  "fst (extract_training_section (example_lib page_with_rule) page_with_rule_html) =
     Some ''<p>A</p>'' \<and>
   section_until_heading (example_lib page_with_rule) page_with_rule_html =
     Some (''<p>A</p>'' @ [CHR 0x0A] @ ''<hr/>'' @ [CHR 0x0A] @ ''<p>B</p>'')"
  by code_simp

end
